theory Spec2Isabelle
  imports Complex_Main "HOL-Library.Sublist"
begin

section \<open>Strings and numbers of the host language\<close>

text \<open>
  Strings are lists of 8-bit characters; the built-in string operations used by
  \<^verbatim>\<open>index.js\<close> are modelled on the ASCII range: \<^verbatim>\<open>toLowerCase\<close> changes the
  letters A to Z only, and white space is the six ASCII white-space characters.
  A thrown \<^verbatim>\<open>Error\<close> is the value \<open>Inl message\<close>.
\<close>

type_synonym 'a outcome = "string + 'a"

definition lower_char :: "char \<Rightarrow> char" where
  "lower_char c =
     (let n = (of_char c :: nat) in if 65 \<le> n \<and> n \<le> 90 then char_of (n + 32) else c)"

definition toLowerCase :: "string \<Rightarrow> string" where
  "toLowerCase s = map lower_char s"

definition is_space :: "char \<Rightarrow> bool" where
  "is_space c = (c \<in> set [CHR 0x09, CHR 0x0A, CHR 0x0B, CHR 0x0C, CHR 0x0D, CHR 0x20])"

definition is_word :: "char \<Rightarrow> bool" where
  "is_word c =
     (let n = (of_char c :: nat) in
      (48 \<le> n \<and> n \<le> 57) \<or> (65 \<le> n \<and> n \<le> 90) \<or> (97 \<le> n \<and> n \<le> 122) \<or> n = 95)"

text \<open>\<^verbatim>\<open>s.trim()\<close>\<close>

definition trim :: "string \<Rightarrow> string" where
  "trim s = rev (dropWhile is_space (rev (dropWhile is_space s)))"

text \<open>\<^verbatim>\<open>s.includes(t)\<close>: \<open>t\<close> occurs in \<open>s\<close> as a contiguous substring.\<close>

fun str_includes :: "string \<Rightarrow> string \<Rightarrow> bool" where
  "str_includes [] t = (t = [])"
| "str_includes (c # cs) t = (prefix t (c # cs) \<or> str_includes cs t)"

text \<open>\<^verbatim>\<open>s.replace(/\s+/g, '')\<close>\<close>

definition strip_spaces :: "string \<Rightarrow> string" where
  "strip_spaces s = filter (\<lambda>c. \<not> is_space c) s"

text \<open>\<^verbatim>\<open>s.replace(/\W+/g, '_')\<close>: every maximal run of non-word characters becomes one underscore.\<close>

function replace_nonword :: "string \<Rightarrow> string" where
  "replace_nonword [] = []"
| "replace_nonword (c # cs) =
     (if is_word c then c # replace_nonword cs
      else CHR ''_'' # replace_nonword (dropWhile (\<lambda>d. \<not> is_word d) cs))"
  by pat_completeness auto
termination
  by (relation "measure length") (auto simp: less_Suc_eq_le length_dropWhile_le)

text \<open>Decimal rendering of an integer, as a template literal does it (magnitudes below \<open>10^21\<close>).\<close>

fun show_nat :: "nat \<Rightarrow> string" where
  "show_nat n =
     (if n < 10 then [''0123456789'' ! n]
      else show_nat (n div 10) @ [''0123456789'' ! (n mod 10)])"

definition show_int :: "int \<Rightarrow> string" where
  "show_int i = (if i < 0 then CHR ''-'' # show_nat (nat (- i)) else show_nat (nat i))"

text \<open>\<^verbatim>\<open>Math.round\<close>: the nearest integer, a tie going up.\<close>

definition Math_round :: "real \<Rightarrow> int" where
  "Math_round x = \<lfloor>x + 1 / 2\<rfloor>"

text \<open>\<^verbatim>\<open>xs.join(sep)\<close>\<close>

fun join :: "string \<Rightarrow> string list \<Rightarrow> string" where
  "join sep [] = []"
| "join sep [x] = x"
| "join sep (x # y # ys) = x @ sep @ join sep (y # ys)"

section \<open>The automation driver\<close>

text \<open>
  The browser, the page and the file system are outside the program. They are a
  driver: every call takes the state of the outside world and returns its result
  with the new world, \<open>Inl message\<close> when the call throws. A locator is described by
  the way the program builds it; a regular expression by its source (the flag is
  always \<^verbatim>\<open>i\<close>, and a source that is no regular expression makes the call throw).
\<close>

type_synonym handle = nat

record element =
  textContent :: string
  innerText :: "string option"
  tagName :: string
  elem_id :: string
  elem_className :: string
  rect_left :: real
  rect_top :: real
  rect_width :: real
  rect_height :: real

datatype target =
    GetByRole string string
  | GetByText string
  | GetByLabel string
  | GetByPlaceholder string
  | Locator string
  | First target
  | Sub target string

datatype action =
    SetViewportSize nat nat
  | Goto string
  | WaitForTimeout int
  | Screenshot string
  | Click target nat
  | PageClick string nat
  | Fill target string nat
  | MouseClick int int

datatype call =
    Launch
  | NewPage handle
  | Close handle
  | Act handle action
  | Title handle
  | Evaluate handle
  | Count handle target
  | GetAttribute handle target string
  | ExistsSync string
  | MkdirSync string
  | DateNow

record 'w driver =
  launch :: "'w \<Rightarrow> handle outcome \<times> 'w"
  newPage :: "handle \<Rightarrow> 'w \<Rightarrow> handle outcome \<times> 'w"
  browser_close :: "handle \<Rightarrow> 'w \<Rightarrow> unit outcome \<times> 'w"
  act :: "handle \<Rightarrow> action \<Rightarrow> 'w \<Rightarrow> unit outcome \<times> 'w"
  title :: "handle \<Rightarrow> 'w \<Rightarrow> string outcome \<times> 'w"
  evaluate :: "handle \<Rightarrow> 'w \<Rightarrow> (string \<Rightarrow> element list) outcome \<times> 'w"
  locator_count :: "handle \<Rightarrow> target \<Rightarrow> 'w \<Rightarrow> nat outcome \<times> 'w"
  getAttribute :: "handle \<Rightarrow> target \<Rightarrow> string \<Rightarrow> 'w \<Rightarrow> string option outcome \<times> 'w"
  existsSync :: "string \<Rightarrow> 'w \<Rightarrow> bool \<times> 'w"
  mkdirSync :: "string \<Rightarrow> 'w \<Rightarrow> unit outcome \<times> 'w"
  dateNow :: "'w \<Rightarrow> nat \<times> 'w"
  cwd :: string

text \<open>
  The module's two variables \<^verbatim>\<open>browser\<close> and \<^verbatim>\<open>page\<close>, the outside world, and the
  calls made to the driver so far, in order.
\<close>

record 'w session =
  browser :: "handle option"
  page :: "handle option"
  world :: 'w
  calls :: "call list"

definition perform :: "call \<Rightarrow> ('w \<Rightarrow> 'a \<times> 'w) \<Rightarrow> 'w session \<Rightarrow> 'a \<times> 'w session" where
  "perform c f s = (case f (world s) of (r, w') \<Rightarrow> (r, s\<lparr>world := w', calls := calls s @ [c]\<rparr>))"

definition page_act :: "'w driver \<Rightarrow> handle \<Rightarrow> action \<Rightarrow> 'w session \<Rightarrow> unit outcome \<times> 'w session" where
  "page_act drv p a = perform (Act p a) (act drv p a)"

text \<open>\<^verbatim>\<open>catch (error) { throw new Error(pre + error.message) }\<close>\<close>

definition rethrow :: "string \<Rightarrow> 'a outcome \<times> 's \<Rightarrow> 'a outcome \<times> 's" where
  "rethrow pre r = (case r of (Inl m, s) \<Rightarrow> (Inl (pre @ m), s) | (Inr v, s) \<Rightarrow> (Inr v, s))"

definition not_initialized :: string where
  "not_initialized = ''Browser not initialized. Call open_browser first.''"

section \<open>Session: open, navigate, capture, close\<close>

definition openBrowser :: "'w driver \<Rightarrow> 'w session \<Rightarrow> string outcome \<times> 'w session" where
  "openBrowser drv s =
     rethrow ''Failed to open browser: ''
       (case perform Launch (launch drv) s of
          (Inl m, s1) \<Rightarrow> (Inl m, s1)
        | (Inr b, s1) \<Rightarrow>
            (case perform (NewPage b) (newPage drv b) (s1\<lparr>browser := Some b\<rparr>) of
               (Inl m, s2) \<Rightarrow> (Inl m, s2)
             | (Inr p, s2) \<Rightarrow>
                 (case page_act drv p (SetViewportSize 1280 720) (s2\<lparr>page := Some p\<rparr>) of
                    (Inl m, s3) \<Rightarrow> (Inl m, s3)
                  | (Inr _, s3) \<Rightarrow> (Inr ''Browser opened'', s3))))"

definition openURL :: "'w driver \<Rightarrow> string \<Rightarrow> 'w session \<Rightarrow> string outcome \<times> 'w session" where
  "openURL drv url s =
     (case page s of
        None \<Rightarrow> (Inl not_initialized, s)
      | Some p \<Rightarrow>
          rethrow (''Failed to navigate to '' @ url @ '': '')
            (case page_act drv p (Goto url) s of
               (Inl m, s1) \<Rightarrow> (Inl m, s1)
             | (Inr _, s1) \<Rightarrow>
                 (case page_act drv p (WaitForTimeout 1500) s1 of
                    (Inl m, s2) \<Rightarrow> (Inl m, s2)
                  | (Inr _, s2) \<Rightarrow>
                      (case perform (Title p) (title drv p) s2 of
                         (Inl m, s3) \<Rightarrow> (Inl m, s3)
                       | (Inr t, s3) \<Rightarrow> (Inr (''Opened URL. Title: '' @ t), s3)))))"

definition SCREEN_DIR :: "'w driver \<Rightarrow> string" where
  "SCREEN_DIR drv = cwd drv @ ''/screenshots''"

definition ensureScreenDir :: "'w driver \<Rightarrow> 'w session \<Rightarrow> unit outcome \<times> 'w session" where
  "ensureScreenDir drv s =
     (case perform (ExistsSync (SCREEN_DIR drv)) (existsSync drv (SCREEN_DIR drv)) s of
        (True, s1) \<Rightarrow> (Inr (), s1)
      | (False, s1) \<Rightarrow> perform (MkdirSync (SCREEN_DIR drv)) (mkdirSync drv (SCREEN_DIR drv)) s1)"

definition takeScreenshot :: "'w driver \<Rightarrow> string option \<Rightarrow> 'w session \<Rightarrow> string outcome \<times> 'w session" where
  "takeScreenshot drv label s =
     (case page s of
        None \<Rightarrow> (Inl not_initialized, s)
      | Some p \<Rightarrow>
          rethrow ''Failed to take screenshot: ''
            (case ensureScreenDir drv s of
               (Inl m, s1) \<Rightarrow> (Inl m, s1)
             | (Inr _, s1) \<Rightarrow>
                 (let suffix = (case label of None \<Rightarrow> []
                                | Some l \<Rightarrow> if l \<noteq> [] then replace_nonword l else []) in
                  case perform DateNow (dateNow drv) s1 of
                    (now, s2) \<Rightarrow>
                      (let fname = ''shot-'' @ show_nat now
                                   @ (if suffix \<noteq> [] then ''-'' @ suffix else []) @ ''.png'';
                           fpath = SCREEN_DIR drv @ ''/'' @ fname
                       in case page_act drv p (Screenshot fpath) s2 of
                            (Inl m, s3) \<Rightarrow> (Inl m, s3)
                          | (Inr _, s3) \<Rightarrow> (Inr (''Screenshot saved: '' @ fname), s3)))))"

definition closeBrowser :: "'w driver \<Rightarrow> 'w session \<Rightarrow> string outcome \<times> 'w session" where
  "closeBrowser drv s =
     rethrow ''Failed to close browser: ''
       (case browser s of
          Some b \<Rightarrow>
            (case perform (Close b) (browser_close drv b) s of
               (Inl m, s1) \<Rightarrow> (Inl m, s1)
             | (Inr _, s1) \<Rightarrow> (Inr ''Browser closed'', s1\<lparr>browser := None, page := None\<rparr>))
        | None \<Rightarrow> (Inr ''Browser not open'', s))"

section \<open>Locating elements\<close>

record candidate =
  cand_text :: string
  cand_tag :: string
  cand_id :: "string option"
  cand_className :: string
  confidence :: nat
  center_x :: int
  center_y :: int

record find_result =
  res_count :: nat
  res_top :: "candidate list"

definition selectors :: "string list" where
  \<open>selectors =
     [''a'', ''button'', ''[role="button"]'', ''input[type="button"]'',
      ''input[type="submit"]'', ''.btn'', ''.button'', ''[onclick]'']\<close>

text \<open>\<^verbatim>\<open>(el.textContent || el.innerText || '').trim()\<close>\<close>

definition visible_text :: "element \<Rightarrow> string" where
  "visible_text el =
     trim (if textContent el \<noteq> [] then textContent el
           else case innerText el of None \<Rightarrow> [] | Some t \<Rightarrow> t)"

text \<open>The predicate of \<^verbatim>\<open>terms.filter\<close>; an empty class or id is falsy and is not searched.\<close>

definition term_matches :: "element \<Rightarrow> string \<Rightarrow> bool" where
  "term_matches el t =
     (str_includes (toLowerCase (visible_text el)) (toLowerCase t)
      \<or> (elem_className el \<noteq> [] \<and> str_includes (toLowerCase (elem_className el)) (toLowerCase t))
      \<or> (elem_id el \<noteq> [] \<and> str_includes (toLowerCase (elem_id el)) (toLowerCase t)))"

text \<open>The body of the inner \<^verbatim>\<open>forEach\<close>: what one element pushes on \<^verbatim>\<open>out\<close>.\<close>

definition candidates_of :: "string list \<Rightarrow> element \<Rightarrow> candidate list" where
  "candidates_of terms el =
     (if rect_width el > 0 \<and> rect_height el > 0 then
        (let matches = filter (term_matches el) terms in
         if length matches \<noteq> 0 then
           [\<lparr>cand_text = take 80 (visible_text el),
             cand_tag = toLowerCase (tagName el),
             cand_id = (if elem_id el \<noteq> [] then Some (elem_id el) else None),
             cand_className = take 80 (elem_className el),
             confidence = length matches,
             center_x = Math_round (rect_left el + rect_width el / 2),
             center_y = Math_round (rect_top el + rect_height el / 2)\<rparr>]
         else [])
      else [])"

text \<open>The comparison function given to \<^verbatim>\<open>sort\<close>.\<close>

definition compare_candidates :: "candidate \<Rightarrow> candidate \<Rightarrow> int" where
  "compare_candidates a b =
     (if confidence a \<noteq> confidence b then int (confidence b) - int (confidence a)
      else int (length (cand_text b)) - int (length (cand_text a)))"

text \<open>
  \<^verbatim>\<open>Array.prototype.sort\<close> with a comparison function is a stable sort: an element
  goes before the first element that the comparison does not put before it.
\<close>

fun insert_by :: "('a \<Rightarrow> 'a \<Rightarrow> int) \<Rightarrow> 'a \<Rightarrow> 'a list \<Rightarrow> 'a list" where
  "insert_by cmp x [] = [x]"
| "insert_by cmp x (y # ys) = (if cmp x y \<le> 0 then x # y # ys else y # insert_by cmp x ys)"

definition sort_by :: "('a \<Rightarrow> 'a \<Rightarrow> int) \<Rightarrow> 'a list \<Rightarrow> 'a list" where
  "sort_by cmp xs = foldr (insert_by cmp) xs []"

text \<open>The function evaluated in the page, on the document \<open>doc\<close> (\<^verbatim>\<open>querySelectorAll\<close>).\<close>

definition scan :: "(string \<Rightarrow> element list) \<Rightarrow> string list \<Rightarrow> candidate list" where
  "scan doc terms =
     sort_by compare_candidates
       (concat (map (\<lambda>selector. concat (map (candidates_of terms) (doc selector))) selectors))"

definition findElements :: "'w driver \<Rightarrow> string list \<Rightarrow> 'w session \<Rightarrow> find_result outcome \<times> 'w session" where
  "findElements drv searchTerms s =
     (case page s of
        None \<Rightarrow> (Inl not_initialized, s)
      | Some p \<Rightarrow>
          rethrow ''Failed to find elements: ''
            (case perform (Evaluate p) (evaluate drv p) s of
               (Inl m, s1) \<Rightarrow> (Inl m, s1)
             | (Inr doc, s1) \<Rightarrow>
                 (let trimmed = take 6 (scan doc searchTerms)
                  in (Inr \<lparr>res_count = length trimmed, res_top = trimmed\<rparr>, s1))))"

section \<open>Clicking\<close>

type_synonym 'w attempt = "'w session \<Rightarrow> unit outcome \<times> 'w session"

definition click_attempts :: "'w driver \<Rightarrow> handle \<Rightarrow> string \<Rightarrow> 'w attempt list" where
  \<open>click_attempts drv p t =
     [page_act drv p (Click (GetByRole ''button'' t) 2000),
      page_act drv p (Click (GetByRole ''link'' t) 2000),
      page_act drv p (Click (GetByText t) 2000),
      page_act drv p (PageClick (''text="'' @ t @ ''"'') 2000),
      page_act drv p (PageClick ('':has-text("'' @ t @ ''")'') 2000)]\<close>

text \<open>
  The loop over \<^verbatim>\<open>attempts\<close> and the \<^verbatim>\<open>throw\<close> after it: the click and the settle
  delay are in one \<^verbatim>\<open>try\<close>, whose \<^verbatim>\<open>catch\<close> is empty.
\<close>

fun try_clicks :: "'w driver \<Rightarrow> handle \<Rightarrow> string \<Rightarrow> 'w attempt list \<Rightarrow> 'w session \<Rightarrow> string outcome \<times> 'w session" where
  \<open>try_clicks drv p t [] s = (Inl (''Could not click "'' @ t @ ''"''), s)\<close>
| \<open>try_clicks drv p t (tryClick # rest) s =
     (case tryClick s of
        (Inl _, s1) \<Rightarrow> try_clicks drv p t rest s1
      | (Inr _, s1) \<Rightarrow>
          (case page_act drv p (WaitForTimeout 600) s1 of
             (Inl _, s2) \<Rightarrow> try_clicks drv p t rest s2
           | (Inr _, s2) \<Rightarrow> (Inr (''Clicked "'' @ t @ ''"''), s2)))\<close>

text \<open>The two branches taken when \<^verbatim>\<open>text\<close> is falsy.\<close>

definition click_coordinates :: "'w driver \<Rightarrow> handle \<Rightarrow> int option \<Rightarrow> int option \<Rightarrow> 'w session \<Rightarrow> string outcome \<times> 'w session" where
  "click_coordinates drv p x y s =
     (case (x, y) of
        (Some xv, Some yv) \<Rightarrow>
          (case page_act drv p (MouseClick xv yv) s of
             (Inl m, s1) \<Rightarrow> (Inl m, s1)
           | (Inr _, s1) \<Rightarrow>
               (case page_act drv p (WaitForTimeout 600) s1 of
                  (Inl m, s2) \<Rightarrow> (Inl m, s2)
                | (Inr _, s2) \<Rightarrow>
                    (Inr (''Clicked at ('' @ show_int xv @ '', '' @ show_int yv @ '')''), s2)))
      | _ \<Rightarrow> (Inl ''Provide text or coordinates'', s))"

definition clickElement :: "'w driver \<Rightarrow> string option \<Rightarrow> int option \<Rightarrow> int option \<Rightarrow> 'w session \<Rightarrow> string outcome \<times> 'w session" where
  "clickElement drv text x y s =
     (case page s of
        None \<Rightarrow> (Inl not_initialized, s)
      | Some p \<Rightarrow>
          rethrow ''Failed to click: ''
            (case text of
               None \<Rightarrow> click_coordinates drv p x y s
             | Some t \<Rightarrow>
                 if t \<noteq> [] then try_clicks drv p t (click_attempts drv p t) s
                 else click_coordinates drv p x y s))"

section \<open>Filling a form\<close>

record fill_args =
  firstName :: "string option"
  lastName :: "string option"
  fullName :: "string option"
  email :: "string option"
  userName :: "string option"
  password :: "string option"
  confirmPassword :: "string option"
  message :: "string option"
  perFieldDelayMs :: "int option"

record task =
  task_key :: string
  task_value :: "string option"
  task_labels :: "string list"

definition page_fill :: "'w driver \<Rightarrow> handle \<Rightarrow> target \<Rightarrow> string \<Rightarrow> 'w attempt" where
  "page_fill drv p tgt v = page_act drv p (Fill tgt v 1000)"

text \<open>The five closures pushed for one label, in the order of the pushes.\<close>

definition fill_by_label :: "'w driver \<Rightarrow> handle \<Rightarrow> string \<Rightarrow> string \<Rightarrow> 'w attempt" where
  "fill_by_label drv p lbl v = page_fill drv p (GetByLabel (''^'' @ lbl @ ''$'')) v"

definition fill_by_placeholder :: "'w driver \<Rightarrow> handle \<Rightarrow> string \<Rightarrow> string \<Rightarrow> 'w attempt" where
  "fill_by_placeholder drv p lbl v = page_fill drv p (GetByPlaceholder lbl) v"

definition fill_by_name :: "'w driver \<Rightarrow> handle \<Rightarrow> string \<Rightarrow> string \<Rightarrow> 'w attempt" where
  \<open>fill_by_name drv p key v = page_fill drv p (First (Locator (''input[name*="'' @ key @ ''"]''))) v\<close>

definition fill_by_id :: "'w driver \<Rightarrow> handle \<Rightarrow> string \<Rightarrow> string \<Rightarrow> 'w attempt" where
  \<open>fill_by_id drv p key v = page_fill drv p (First (Locator (''input[id*="'' @ key @ ''"]''))) v\<close>

definition fill_by_label_element :: "'w driver \<Rightarrow> handle \<Rightarrow> string \<Rightarrow> string \<Rightarrow> 'w attempt" where
  \<open>fill_by_label_element drv p lbl v s =
     (let labelEl = First (Locator (''label:has-text("'' @ lbl @ ''")'')) in
      case perform (Count p labelEl) (locator_count drv p labelEl) s of
        (Inl m, s1) \<Rightarrow> (Inl m, s1)
      | (Inr has, s1) \<Rightarrow>
          if has = 0 then (Inl ''label not found'', s1)
          else
            (case perform (GetAttribute p labelEl ''for'') (getAttribute drv p labelEl ''for'') s1 of
               (r, s2) \<Rightarrow>
                 (case (case r of Inl _ \<Rightarrow> None | Inr a \<Rightarrow> a) of
                    None \<Rightarrow> page_fill drv p (First (Sub (Sub labelEl ''..'') ''input'')) v s2
                  | Some f \<Rightarrow>
                      if f \<noteq> [] then page_fill drv p (Locator (''#'' @ f)) v s2
                      else page_fill drv p (First (Sub (Sub labelEl ''..'') ''input'')) v s2)))\<close>

definition label_key :: "string \<Rightarrow> string" where
  "label_key lbl = strip_spaces (toLowerCase lbl)"

definition fill_attempts :: "'w driver \<Rightarrow> handle \<Rightarrow> string list \<Rightarrow> string \<Rightarrow> 'w attempt list" where
  "fill_attempts drv p labels v =
     foldl (\<lambda>attempts lbl.
              (let key = label_key lbl in
               attempts @ [fill_by_label drv p lbl v, fill_by_placeholder drv p lbl v,
                           fill_by_name drv p key v, fill_by_id drv p key v,
                           fill_by_label_element drv p lbl v]))
           [] labels"

text \<open>\<^verbatim>\<open>for (const a of attempts) { try { await a(); return true; } catch {} } return false;\<close>\<close>

fun run_attempts :: "'w attempt list \<Rightarrow> 'w session \<Rightarrow> bool \<times> 'w session" where
  "run_attempts [] s = (False, s)"
| "run_attempts (a # rest) s =
     (case a s of (Inr _, s1) \<Rightarrow> (True, s1) | (Inl _, s1) \<Rightarrow> run_attempts rest s1)"

definition tryFill :: "'w driver \<Rightarrow> handle \<Rightarrow> string list \<Rightarrow> string option \<Rightarrow> 'w session \<Rightarrow> bool \<times> 'w session" where
  "tryFill drv p labels v s =
     (case v of None \<Rightarrow> (False, s) | Some val \<Rightarrow> run_attempts (fill_attempts drv p labels val) s)"

definition tasks :: "fill_args \<Rightarrow> task list" where
  "tasks a =
     [\<lparr>task_key = ''First Name'', task_value = firstName a,
        task_labels = [''First Name'', ''Firstname'', ''Given Name'', ''First'']\<rparr>,
      \<lparr>task_key = ''Last Name'', task_value = lastName a,
        task_labels = [''Last Name'', ''Lastname'', ''Surname'', ''Family Name'', ''Last'']\<rparr>,
      \<lparr>task_key = ''Full Name'', task_value = fullName a,
        task_labels = [''Full Name'', ''Full name'', ''FullName'', ''fullName'']\<rparr>,
      \<lparr>task_key = ''Email'', task_value = email a,
        task_labels = [''Email'', ''Email Address'', ''E-mail'']\<rparr>,
      \<lparr>task_key = ''Username'', task_value = userName a,
        task_labels = [''Username'', ''UserName'', ''User name'']\<rparr>,
      \<lparr>task_key = ''Password'', task_value = password a,
        task_labels = [''Password'', ''New Password'']\<rparr>,
      \<lparr>task_key = ''Your Message'', task_value = message a,
        task_labels = [''Your Message'', ''message'']\<rparr>,
      \<lparr>task_key = ''Confirm Password'', task_value = confirmPassword a,
        task_labels = [''Confirm Password'', ''Re-enter Password'', ''Retype Password'', ''Confirm'']\<rparr>]"

text \<open>One line of the report: \<^verbatim>\<open>`${t.key}:${ok?'ok':'missing'}`\<close>\<close>

definition report_line :: "task \<Rightarrow> bool \<Rightarrow> string" where
  "report_line t ok = task_key t @ '':'' @ (if ok then ''ok'' else ''missing'')"

text \<open>The loop over \<^verbatim>\<open>tasks\<close>, with \<^verbatim>\<open>results\<close> as it stands.\<close>

fun fill_tasks :: "'w driver \<Rightarrow> handle \<Rightarrow> int \<Rightarrow> task list \<Rightarrow> string list \<Rightarrow> 'w session \<Rightarrow> string list outcome \<times> 'w session" where
  "fill_tasks drv p delay [] results s = (Inr results, s)"
| "fill_tasks drv p delay (t # ts) results s =
     (if task_value t = None then fill_tasks drv p delay ts results s
      else
        (case tryFill drv p (task_labels t) (task_value t) s of
           (ok, s1) \<Rightarrow>
             if delay \<noteq> 0 then
               (case page_act drv p (WaitForTimeout delay) s1 of
                  (Inl m, s2) \<Rightarrow> (Inl m, s2)
                | (Inr _, s2) \<Rightarrow> fill_tasks drv p delay ts (results @ [report_line t ok]) s2)
             else fill_tasks drv p delay ts (results @ [report_line t ok]) s1))"

definition fillFormFields :: "'w driver \<Rightarrow> fill_args \<Rightarrow> 'w session \<Rightarrow> string outcome \<times> 'w session" where
  "fillFormFields drv a s =
     (case page s of
        None \<Rightarrow> (Inl not_initialized, s)
      | Some p \<Rightarrow>
          (let delay = (case perFieldDelayMs a of Some d \<Rightarrow> d | None \<Rightarrow> 120) in
           case fill_tasks drv p delay (tasks a) [] s of
             (Inl m, s') \<Rightarrow> (Inl m, s')
           | (Inr results, s') \<Rightarrow> (Inr (join ''|'' results), s')))"

section \<open>The specification's notions\<close>

text \<open>
  A hint term matches an element when, letter case apart, it is a substring of the
  element's visible text, of its class attribute or of its id attribute.
\<close>

definition hint_matches :: "element \<Rightarrow> string \<Rightarrow> bool" where
  "hint_matches el t =
     (sublist (toLowerCase t) (toLowerCase (visible_text el))
      \<or> sublist (toLowerCase t) (toLowerCase (elem_className el))
      \<or> sublist (toLowerCase t) (toLowerCase (elem_id el)))"

text \<open>The ranking: \<open>a\<close> may stand before \<open>b\<close> in the sorted list.\<close>

definition ranked_before :: "candidate \<Rightarrow> candidate \<Rightarrow> bool" where
  "ranked_before a b = (compare_candidates a b \<le> 0)"

definition rendered :: "element \<Rightarrow> bool" where
  "rendered el = (rect_width el \<noteq> 0 \<and> rect_height el \<noteq> 0)"

text \<open>
  A strategy chain: \<open>all_fail as s\<close> is the session reached when the attempts \<open>as\<close>
  are made one after the other from \<open>s\<close> and every one of them throws.
\<close>

fun all_fail :: "'w attempt list \<Rightarrow> 'w session \<Rightarrow> 'w session option" where
  "all_fail [] s = Some s"
| "all_fail (a # rest) s = (case a s of (Inl _, s1) \<Rightarrow> all_fail rest s1 | (Inr _, _) \<Rightarrow> None)"

text \<open>The five fill strategies for one synonym, and the chain for a list of synonyms.\<close>

definition fill_strategies :: "'w driver \<Rightarrow> handle \<Rightarrow> string \<Rightarrow> string \<Rightarrow> 'w attempt list" where
  "fill_strategies drv p lbl v =
     [fill_by_label drv p lbl v,
      fill_by_placeholder drv p lbl v,
      fill_by_name drv p (strip_spaces (toLowerCase lbl)) v,
      fill_by_id drv p (strip_spaces (toLowerCase lbl)) v,
      fill_by_label_element drv p lbl v]"


text \<open>The five resolution strategies of a text hint, as the page actions they make.\<close>

definition click_actions :: "string \<Rightarrow> action list" where
  \<open>click_actions t =
     [Click (GetByRole ''button'' t) 2000,
      Click (GetByRole ''link'' t) 2000,
      Click (GetByText t) 2000,
      PageClick (''text="'' @ t @ ''"'') 2000,
      PageClick ('':has-text("'' @ t @ ''")'') 2000]\<close>

text \<open>
  One turn of the click loop: the click and, after a click that succeeded, the
  settle delay of 600 ms. The turn throws when either of the two throws.
\<close>

definition click_then_settle :: "'w driver \<Rightarrow> handle \<Rightarrow> action \<Rightarrow> 'w attempt" where
  "click_then_settle drv p a s =
     (case page_act drv p a s of
        (Inl m, s1) \<Rightarrow> (Inl m, s1)
      | (Inr _, s1) \<Rightarrow> page_act drv p (WaitForTimeout 600) s1)"





section \<open>A simulated driver for concrete runs\<close>

text \<open>
  A driver over a trivial world: a page action succeeds when \<open>ok\<close> says so, the
  document is \<open>doc\<close>, and a label element is never found.
\<close>

definition sim_driver :: "(action \<Rightarrow> bool) \<Rightarrow> (string \<Rightarrow> element list) \<Rightarrow> unit driver" where
  "sim_driver ok doc =
     \<lparr>launch = (\<lambda>w. (Inr 1, w)),
      newPage = (\<lambda>b w. (Inr 2, w)),
      browser_close = (\<lambda>b w. (Inr (), w)),
      act = (\<lambda>p a w. (if ok a then Inr () else Inl ''Timeout exceeded'', w)),
      title = (\<lambda>p w. (Inr ''Example'', w)),
      evaluate = (\<lambda>p w. (Inr doc, w)),
      locator_count = (\<lambda>p t w. (Inr 0, w)),
      getAttribute = (\<lambda>p t n w. (Inr None, w)),
      existsSync = (\<lambda>d w. (True, w)),
      mkdirSync = (\<lambda>d w. (Inr (), w)),
      dateNow = (\<lambda>w. (1693333333333, w)),
      cwd = ''/app''\<rparr>"

definition closed_session :: "unit session" where
  "closed_session = \<lparr>browser = None, page = None, world = (), calls = []\<rparr>"

definition open_session :: "unit session" where
  "open_session = \<lparr>browser = Some 1, page = Some 2, world = (), calls = []\<rparr>"

definition button_el :: "string \<Rightarrow> real \<Rightarrow> real \<Rightarrow> element" where
  "button_el txt w h =
     \<lparr>textContent = txt, innerText = Some txt, tagName = ''BUTTON'', elem_id = [],
      elem_className = [], rect_left = 10, rect_top = 20, rect_width = w, rect_height = h\<rparr>"

definition buttons_doc :: "element list \<Rightarrow> string \<Rightarrow> element list" where
  "buttons_doc els selector = (if selector = ''button'' then els else [])"

definition no_args :: fill_args where
  "no_args =
     \<lparr>firstName = None, lastName = None, fullName = None, email = None, userName = None,
      password = None, confirmPassword = None, message = None, perFieldDelayMs = None\<rparr>"

definition is_wait :: "action \<Rightarrow> bool" where
  "is_wait a = (case a of WaitForTimeout _ \<Rightarrow> True | _ \<Rightarrow> False)"

section \<open>The closed session\<close>

text \<open>
  C1 (as amended). While the page handle is uninitialized, navigate, capture, locate
  elements, act/click and fill form fail with the precondition error and leave the
  session as it was: the world is unchanged and no call to the driver is recorded.
  Close session does not fail: with no browser handle it returns the status
  \<^verbatim>\<open>Browser not open\<close>, again without any call.
\<close>

theorem closed_session_precondition:
  assumes "page s = None"
  shows "openURL drv url s = (Inl not_initialized, s)
       \<and> takeScreenshot drv label s = (Inl not_initialized, s)
       \<and> findElements drv searchTerms s = (Inl not_initialized, s)
       \<and> clickElement drv text x y s = (Inl not_initialized, s)
       \<and> fillFormFields drv a s = (Inl not_initialized, s)
       \<and> (browser s = None \<longrightarrow> closeBrowser drv s = (Inr ''Browser not open'', s))"
  using assms
  by (simp add: openURL_def takeScreenshot_def findElements_def clickElement_def
      fillFormFields_def closeBrowser_def rethrow_def)

theorem closed_session_precondition_witness:
  "page closed_session = None
   \<and> openURL (sim_driver (\<lambda>a. True) (\<lambda>sel. [])) ''https://ui.chaicode.com'' closed_session
       = (Inl ''Browser not initialized. Call open_browser first.'', closed_session)
   \<and> clickElement (sim_driver (\<lambda>a. True) (\<lambda>sel. [])) (Some ''Sign Up'') None None closed_session
       = (Inl ''Browser not initialized. Call open_browser first.'', closed_session)
   \<and> fillFormFields (sim_driver (\<lambda>a. True) (\<lambda>sel. [])) no_args closed_session
       = (Inl ''Browser not initialized. Call open_browser first.'', closed_session)
   \<and> calls closed_session = []"
  using closed_session_precondition [of closed_session "sim_driver (\<lambda>a. True) (\<lambda>sel. [])"
      "''https://ui.chaicode.com''" None "[]" "Some ''Sign Up''" None None no_args]
  by (simp add: closed_session_def not_initialized_def)

text \<open>
  Close session on a closed session returns a status string; it is not an error.
\<close>

theorem close_while_closed_counterexample:
  "closeBrowser (sim_driver (\<lambda>a. True) (\<lambda>sel. [])) closed_session
     = (Inr ''Browser not open'', closed_session)"
  by (simp add: closeBrowser_def closed_session_def rethrow_def)

section \<open>Locating elements: matching, ranking, visibility, the cap\<close>

lemma str_includes_nil [simp]: "str_includes s []"
  by (induction s) auto

lemma str_includes_sublist: "str_includes s t = sublist t s"
proof (induction s)
  case Nil
  show ?case by (cases t) auto
next
  case (Cons c cs)
  show ?case
  proof (cases t)
    case Nil
    then show ?thesis by simp
  next
    case (Cons x xs)
    with Cons.IH show ?thesis by (simp add: sublist_Cons_right)
  qed
qed

lemma toLowerCase_nil [simp]: "toLowerCase [] = []"
  by (simp add: toLowerCase_def)

lemma term_matches_hint: "term_matches el t = hint_matches el t"
proof -
  have nil: "sublist (toLowerCase t) [] \<Longrightarrow> sublist (toLowerCase t) zs" for zs
    by simp
  show ?thesis
    unfolding term_matches_def hint_matches_def str_includes_sublist
    by (cases "elem_className el = []"; cases "elem_id el = []") (auto dest: nil)
qed

lemma candidates_of_cases:
  "candidates_of terms el = [] \<or>
   (rect_width el > 0 \<and> rect_height el > 0 \<and> filter (term_matches el) terms \<noteq> []
    \<and> (\<exists>c. candidates_of terms el = [c] \<and> confidence c = length (filter (term_matches el) terms)))"
  by (simp add: candidates_of_def Let_def)

lemma set_insert_by [simp]: "set (insert_by cmp x xs) = insert x (set xs)"
  by (induction xs) auto

lemma set_sort_by [simp]: "set (sort_by cmp xs) = set xs"
  by (induction xs) (auto simp: sort_by_def)

lemma length_insert_by [simp]: "length (insert_by cmp x xs) = Suc (length xs)"
  by (induction xs) auto

lemma length_sort_by [simp]: "length (sort_by cmp xs) = length xs"
  by (induction xs) (auto simp: sort_by_def)


lemma ranked_before_iff:
  "ranked_before a b \<longleftrightarrow>
     confidence b < confidence a
     \<or> (confidence a = confidence b \<and> length (cand_text b) \<le> length (cand_text a))"
  by (auto simp: ranked_before_def compare_candidates_def)

lemma sorted_insert_by:
  "sorted_wrt ranked_before xs \<Longrightarrow> sorted_wrt ranked_before (insert_by compare_candidates x xs)"
proof (induction xs)
  case Nil
  then show ?case by simp
next
  case (Cons y ys)
  show ?case
  proof (cases "compare_candidates x y \<le> 0")
    case True
    then have xy: "ranked_before x y" by (simp add: ranked_before_def)
    have "\<forall>z\<in>set ys. ranked_before x z"
    proof
      fix z assume "z \<in> set ys"
      with Cons.prems have "ranked_before y z" by simp
      with xy show "ranked_before x z" by (auto simp: ranked_before_iff)
    qed
    with True xy Cons.prems show ?thesis by simp
  next
    case False
    then have "ranked_before y x"
      by (auto simp: ranked_before_iff compare_candidates_def split: if_splits)
    with False Cons show ?thesis by auto
  qed
qed

lemma sorted_sort_by: "sorted_wrt ranked_before (sort_by compare_candidates xs)"
  by (induction xs) (auto simp: sort_by_def intro: sorted_insert_by [unfolded sort_by_def])

lemma sorted_scan: "sorted_wrt ranked_before (take n (scan doc terms))"
  unfolding scan_def by (intro sorted_wrt_take sorted_sort_by)


lemma findElements_open:
  assumes "page s = Some p" and "evaluate drv p (world s) = (Inr doc, w')"
  shows "findElements drv terms s =
           (Inr \<lparr>res_count = length (take 6 (scan doc terms)), res_top = take 6 (scan doc terms)\<rparr>,
            s\<lparr>world := w', calls := calls s @ [Evaluate p]\<rparr>)"
  using assms by (simp add: findElements_def perform_def rethrow_def Let_def)

lemma scan_origin:
  assumes "c \<in> set (scan doc terms)"
  shows "\<exists>selector\<in>set selectors. \<exists>el\<in>set (doc selector). candidates_of terms el = [c]"
proof -
  from assms obtain selector el where sel: "selector \<in> set selectors"
    and el: "el \<in> set (doc selector)" and c: "c \<in> set (candidates_of terms el)"
    by (auto simp: scan_def)
  from c candidates_of_cases [of terms el] have "candidates_of terms el = [c]"
    by auto
  with sel el show ?thesis by blast
qed

lemma candidates_of_single:
  assumes "candidates_of terms el = [c]"
  shows "rect_width el > 0 \<and> rect_height el > 0
         \<and> confidence c = length (filter (hint_matches el) terms)
         \<and> filter (hint_matches el) terms \<noteq> []"
proof -
  have eq: "term_matches el = hint_matches el"
    by (rule ext) (rule term_matches_hint)
  from assms candidates_of_cases [of terms el] show ?thesis
    by (auto simp: eq)
qed

text \<open>
  C3 (as amended). Every candidate returned by locate elements was pushed by an
  element of the document found under one of the selectors, and its confidence is
  the number of entries of the hint list that match that element, a repeated term
  counted once for each occurrence; when the hint list has no repeated term this is
  the number of distinct hint terms that match. A term matches when, letter case
  apart, it is a substring of the visible text, of the class or of the id, and which
  of the three matched has no weight.
\<close>

theorem confidence_counts_matching_entries:
  assumes "page s = Some p" and "evaluate drv p (world s) = (Inr doc, w')"
  shows "\<exists>r s'. findElements drv terms s = (Inr r, s')
           \<and> (\<forall>c\<in>set (res_top r). \<exists>selector\<in>set selectors. \<exists>el\<in>set (doc selector).
                 candidates_of terms el = [c]
                 \<and> confidence c = length (filter (hint_matches el) terms)
                 \<and> (distinct terms \<longrightarrow> confidence c = card {t \<in> set terms. hint_matches el t}))"
proof -
  let ?top = "take 6 (scan doc terms)"
  have "\<exists>selector\<in>set selectors. \<exists>el\<in>set (doc selector).
          candidates_of terms el = [c]
          \<and> confidence c = length (filter (hint_matches el) terms)
          \<and> (distinct terms \<longrightarrow> confidence c = card {t \<in> set terms. hint_matches el t})"
    if "c \<in> set ?top" for c
  proof -
    from that have "c \<in> set (scan doc terms)" by (rule in_set_takeD)
    then obtain selector el where sel: "selector \<in> set selectors"
      and el: "el \<in> set (doc selector)" and c: "candidates_of terms el = [c]"
      using scan_origin by blast
    from c have len: "confidence c = length (filter (hint_matches el) terms)"
      using candidates_of_single by blast
    have "distinct terms \<Longrightarrow> length (filter (hint_matches el) terms) = card {t \<in> set terms. hint_matches el t}"
      by (metis distinct_filter distinct_card set_filter)
    with sel el c len show ?thesis by auto
  qed
  then show ?thesis
    unfolding findElements_open [OF assms] by simp
qed



lemma sim_page [simp]: "page open_session = Some 2"
  by (simp add: open_session_def)

lemma sim_evaluate [simp]: "evaluate (sim_driver ok doc) p w = (Inr doc, w)"
  by (simp add: sim_driver_def)

lemma scan_sign_up:
  "scan (buttons_doc [button_el ''Sign Up'' 100 40]) [''sign'', ''up''] =
     [\<lparr>cand_text = ''Sign Up'', cand_tag = ''button'', cand_id = None, cand_className = [],
       confidence = 2, center_x = 60, center_y = 40\<rparr>]"
  by code_simp

lemma scan_repeated:
  "scan (buttons_doc [button_el ''a'' 100 40]) [''a'', ''a''] =
     [\<lparr>cand_text = ''a'', cand_tag = ''button'', cand_id = None, cand_className = [],
       confidence = 2, center_x = 60, center_y = 40\<rparr>]"
  by code_simp

text \<open>
  A run of C3: a button \<^verbatim>\<open>Sign Up\<close> and the hints \<^verbatim>\<open>sign\<close>, \<^verbatim>\<open>up\<close> give confidence 2.
\<close>

theorem confidence_counts_matching_entries_witness:
  "findElements (sim_driver (\<lambda>a. True) (buttons_doc [button_el ''Sign Up'' 100 40]))
      [''sign'', ''up''] open_session
     = (Inr \<lparr>res_count = 1,
             res_top = [\<lparr>cand_text = ''Sign Up'', cand_tag = ''button'', cand_id = None,
                         cand_className = [], confidence = 2, center_x = 60, center_y = 40\<rparr>]\<rparr>,
        open_session\<lparr>calls := [Evaluate 2]\<rparr>)
   \<and> length (filter (hint_matches (button_el ''Sign Up'' 100 40)) [''sign'', ''up'']) = 2"
proof -
  have res: "findElements (sim_driver (\<lambda>a. True) (buttons_doc [button_el ''Sign Up'' 100 40]))
      [''sign'', ''up''] open_session
     = (Inr \<lparr>res_count = 1,
             res_top = [\<lparr>cand_text = ''Sign Up'', cand_tag = ''button'', cand_id = None,
                         cand_className = [], confidence = 2, center_x = 60, center_y = 40\<rparr>]\<rparr>,
        open_session\<lparr>calls := [Evaluate 2]\<rparr>)"
    by (simp add: findElements_open [OF sim_page sim_evaluate] scan_sign_up)
       (simp add: open_session_def)
  have origin: "el = button_el ''Sign Up'' 100 40"
    if "selector \<in> set selectors" "el \<in> set (buttons_doc [button_el ''Sign Up'' 100 40] selector)"
    for selector el
    using that by (simp add: buttons_doc_def split: if_splits)
  from confidence_counts_matching_entries [OF sim_page sim_evaluate,
      of "\<lambda>a. True" "buttons_doc [button_el ''Sign Up'' 100 40]" "[''sign'', ''up'']"]
  obtain r s' where eq: "(Inr \<lparr>res_count = 1,
             res_top = [\<lparr>cand_text = ''Sign Up'', cand_tag = ''button'', cand_id = None,
                         cand_className = [], confidence = 2, center_x = 60, center_y = 40\<rparr>]\<rparr>,
        open_session\<lparr>calls := [Evaluate 2]\<rparr>) = (Inr r, s')"
    and every: "\<forall>c\<in>set (res_top r).
        \<exists>selector\<in>set selectors. \<exists>el\<in>set (buttons_doc [button_el ''Sign Up'' 100 40] selector).
          candidates_of [''sign'', ''up''] el = [c]
          \<and> confidence c = length (filter (hint_matches el) [''sign'', ''up''])
          \<and> (distinct [''sign'', ''up''] \<longrightarrow>
               confidence c = card {t \<in> set [''sign'', ''up'']. hint_matches el t})"
    unfolding res by blast
  from eq have r: "res_top r = [\<lparr>cand_text = ''Sign Up'', cand_tag = ''button'', cand_id = None,
                         cand_className = [], confidence = 2, center_x = 60, center_y = 40\<rparr>]"
    by auto
  from every obtain selector el where "selector \<in> set selectors"
    and "el \<in> set (buttons_doc [button_el ''Sign Up'' 100 40] selector)"
    and "2 = length (filter (hint_matches el) [''sign'', ''up''])"
    unfolding r by auto
  with origin have "length (filter (hint_matches (button_el ''Sign Up'' 100 40)) [''sign'', ''up'']) = 2"
    by metis
  with res show ?thesis by simp
qed

text \<open>
  C3 as stated fails on a hint list with a repeated term: the hints \<^verbatim>\<open>a\<close>, \<^verbatim>\<open>a\<close> give
  the button \<^verbatim>\<open>a\<close> the confidence 2, and one distinct term matches.
\<close>

theorem repeated_term_counterexample:
  "findElements (sim_driver (\<lambda>a. True) (buttons_doc [button_el ''a'' 100 40]))
      [''a'', ''a''] open_session
     = (Inr \<lparr>res_count = 1,
             res_top = [\<lparr>cand_text = ''a'', cand_tag = ''button'', cand_id = None,
                         cand_className = [], confidence = 2, center_x = 60, center_y = 40\<rparr>]\<rparr>,
        open_session\<lparr>calls := [Evaluate 2]\<rparr>)
   \<and> card (set (filter (hint_matches (button_el ''a'' 100 40)) [''a'', ''a''])) = 1"
proof -
  have "card (set (filter (hint_matches (button_el ''a'' 100 40)) [''a'', ''a''])) = 1"
    by code_simp
  then show ?thesis
    by (simp add: findElements_open [OF sim_page sim_evaluate] scan_repeated)
       (simp add: open_session_def)
qed


lemma findElements_Inr:
  assumes "findElements drv terms s = (Inr r, s')"
  shows "\<exists>doc. res_top r = take 6 (scan doc terms)"
proof (cases "page s")
  case None
  with assms show ?thesis by (simp add: findElements_def)
next
  case (Some p)
  obtain e w' where ev: "evaluate drv p (world s) = (e, w')"
    by (cases "evaluate drv p (world s)")
  show ?thesis
  proof (cases e)
    case (Inl m)
    with assms Some ev show ?thesis
      by (simp add: findElements_def perform_def rethrow_def)
  next
    case (Inr doc)
    with assms Some ev findElements_open [of s p drv doc w' terms] have
      "r = \<lparr>res_count = length (take 6 (scan doc terms)), res_top = take 6 (scan doc terms)\<rparr>"
      by simp
    then show ?thesis by auto
  qed
qed

lemma candidates_of_text:
  "candidates_of terms el = [c] \<Longrightarrow> cand_text c = take 80 (visible_text el)"
  by (auto simp: candidates_of_def Let_def split: if_splits)

text \<open>
  C4 (as amended). In the list returned by locate elements, a candidate with
  strictly higher confidence stands before every candidate with lower confidence,
  and of two candidates with equal confidence the one whose \<^verbatim>\<open>text\<close> field is longer
  stands first. The \<^verbatim>\<open>text\<close> field is the visible text of the element that pushed the
  candidate, cut to its first 80 characters; it is this cut text that is compared,
  so visible texts of 80 characters or more are not told apart by their length.
\<close>

theorem ranking_order:
  assumes "findElements drv terms s = (Inr r, s')"
    and "i < length (res_top r)" and "j < length (res_top r)"
  shows "(confidence (res_top r ! j) < confidence (res_top r ! i) \<longrightarrow> i < j)
       \<and> (confidence (res_top r ! i) = confidence (res_top r ! j)
            \<and> length (cand_text (res_top r ! j)) < length (cand_text (res_top r ! i)) \<longrightarrow> i < j)
       \<and> (\<exists>el. candidates_of terms el = [res_top r ! i]
              \<and> cand_text (res_top r ! i) = take 80 (visible_text el)
              \<and> length (cand_text (res_top r ! i)) = min 80 (length (visible_text el)))"
proof -
  from assms(1) obtain doc where top: "res_top r = take 6 (scan doc terms)"
    using findElements_Inr by blast
  have sorted: "sorted_wrt ranked_before (res_top r)"
    unfolding top by (rule sorted_scan)
  have later: "ranked_before (res_top r ! j) (res_top r ! i)" if "j < i"
    using sorted that assms(2) by (simp add: sorted_wrt_iff_nth_less)
  have order: "(confidence (res_top r ! j) < confidence (res_top r ! i) \<longrightarrow> i < j)
       \<and> (confidence (res_top r ! i) = confidence (res_top r ! j)
            \<and> length (cand_text (res_top r ! j)) < length (cand_text (res_top r ! i)) \<longrightarrow> i < j)"
  proof (cases "i < j")
    case True
    then show ?thesis by simp
  next
    case False
    then consider "j = i" | "j < i" by linarith
    then show ?thesis
    proof cases
      case 1
      then show ?thesis by simp
    next
      case 2
      from later [OF 2] show ?thesis by (auto simp: ranked_before_iff)
    qed
  qed
  from assms(2) have "res_top r ! i \<in> set (scan doc terms)"
    unfolding top by (metis in_set_takeD nth_mem)
  then obtain el where el: "candidates_of terms el = [res_top r ! i]"
    using scan_origin by blast
  then have "cand_text (res_top r ! i) = take 80 (visible_text el)"
    by (rule candidates_of_text)
  with el have "\<exists>el. candidates_of terms el = [res_top r ! i]
              \<and> cand_text (res_top r ! i) = take 80 (visible_text el)
              \<and> length (cand_text (res_top r ! i)) = min 80 (length (visible_text el))"
    by (auto simp: min_def)
  with order show ?thesis by simp
qed

lemma scan_three:
  "scan (buttons_doc [button_el ''Up'' 100 40, button_el ''Sign Up'' 100 40,
                      button_el ''Sign Up now'' 100 40]) [''sign'', ''up''] =
     [\<lparr>cand_text = ''Sign Up now'', cand_tag = ''button'', cand_id = None, cand_className = [],
       confidence = 2, center_x = 60, center_y = 40\<rparr>,
      \<lparr>cand_text = ''Sign Up'', cand_tag = ''button'', cand_id = None, cand_className = [],
       confidence = 2, center_x = 60, center_y = 40\<rparr>,
      \<lparr>cand_text = ''Up'', cand_tag = ''button'', cand_id = None, cand_className = [],
       confidence = 1, center_x = 60, center_y = 40\<rparr>]"
  by code_simp

text \<open>
  A run of C4: three buttons, ranked by confidence and then by the length of the text.
\<close>

theorem ranking_order_witness:
  "findElements (sim_driver (\<lambda>a. True)
       (buttons_doc [button_el ''Up'' 100 40, button_el ''Sign Up'' 100 40,
                     button_el ''Sign Up now'' 100 40])) [''sign'', ''up''] open_session
     = (Inr \<lparr>res_count = 3, res_top =
          [\<lparr>cand_text = ''Sign Up now'', cand_tag = ''button'', cand_id = None, cand_className = [],
            confidence = 2, center_x = 60, center_y = 40\<rparr>,
           \<lparr>cand_text = ''Sign Up'', cand_tag = ''button'', cand_id = None, cand_className = [],
            confidence = 2, center_x = 60, center_y = 40\<rparr>,
           \<lparr>cand_text = ''Up'', cand_tag = ''button'', cand_id = None, cand_className = [],
            confidence = 1, center_x = 60, center_y = 40\<rparr>]\<rparr>,
        open_session\<lparr>calls := [Evaluate 2]\<rparr>)
   \<and> (1::nat) < 3 \<and> (2::nat) < 3 \<and> (1::nat) < 2"
proof -
  have res: "findElements (sim_driver (\<lambda>a. True)
       (buttons_doc [button_el ''Up'' 100 40, button_el ''Sign Up'' 100 40,
                     button_el ''Sign Up now'' 100 40])) [''sign'', ''up''] open_session
     = (Inr \<lparr>res_count = 3, res_top =
          [\<lparr>cand_text = ''Sign Up now'', cand_tag = ''button'', cand_id = None, cand_className = [],
            confidence = 2, center_x = 60, center_y = 40\<rparr>,
           \<lparr>cand_text = ''Sign Up'', cand_tag = ''button'', cand_id = None, cand_className = [],
            confidence = 2, center_x = 60, center_y = 40\<rparr>,
           \<lparr>cand_text = ''Up'', cand_tag = ''button'', cand_id = None, cand_className = [],
            confidence = 1, center_x = 60, center_y = 40\<rparr>]\<rparr>,
        open_session\<lparr>calls := [Evaluate 2]\<rparr>)"
    by (simp add: findElements_open [OF sim_page sim_evaluate] scan_three)
       (simp add: open_session_def)
  from ranking_order [OF res, of 1 2] show ?thesis
    using res by simp
qed


lemma scan_long_texts:
  "scan (buttons_doc [button_el (CHR ''x'' # replicate 80 (CHR ''a'')) 100 40,
                      button_el (CHR ''y'' # replicate 99 (CHR ''a'')) 100 40]) [''a''] =
     [\<lparr>cand_text = CHR ''x'' # replicate 79 (CHR ''a''), cand_tag = ''button'', cand_id = None,
       cand_className = [], confidence = 1, center_x = 60, center_y = 40\<rparr>,
      \<lparr>cand_text = CHR ''y'' # replicate 79 (CHR ''a''), cand_tag = ''button'', cand_id = None,
       cand_className = [], confidence = 1, center_x = 60, center_y = 40\<rparr>]"
  by code_simp

text \<open>
  C4 as stated fails on visible texts longer than 80 characters: of two buttons
  with equal confidence, the one with a visible text of 81 characters is returned
  before the one with a visible text of 100 characters.
\<close>

theorem longer_text_second_counterexample:
  "findElements (sim_driver (\<lambda>a. True)
       (buttons_doc [button_el (CHR ''x'' # replicate 80 (CHR ''a'')) 100 40,
                     button_el (CHR ''y'' # replicate 99 (CHR ''a'')) 100 40])) [''a''] open_session
     = (Inr \<lparr>res_count = 2, res_top =
          [\<lparr>cand_text = CHR ''x'' # replicate 79 (CHR ''a''), cand_tag = ''button'', cand_id = None,
            cand_className = [], confidence = 1, center_x = 60, center_y = 40\<rparr>,
           \<lparr>cand_text = CHR ''y'' # replicate 79 (CHR ''a''), cand_tag = ''button'', cand_id = None,
            cand_className = [], confidence = 1, center_x = 60, center_y = 40\<rparr>]\<rparr>,
        open_session\<lparr>calls := [Evaluate 2]\<rparr>)
   \<and> length (visible_text (button_el (CHR ''x'' # replicate 80 (CHR ''a'')) 100 40)) = 81
   \<and> length (visible_text (button_el (CHR ''y'' # replicate 99 (CHR ''a'')) 100 40)) = 100"
proof -
  have "length (visible_text (button_el (CHR ''x'' # replicate 80 (CHR ''a'')) 100 40)) = 81"
    and "length (visible_text (button_el (CHR ''y'' # replicate 99 (CHR ''a'')) 100 40)) = 100"
    by code_simp+
  then show ?thesis
    by (simp add: findElements_open [OF sim_page sim_evaluate] scan_long_texts)
       (simp add: open_session_def)
qed

lemma candidates_of_unrendered: "\<not> rendered el \<Longrightarrow> candidates_of terms el = []"
  by (auto simp: rendered_def candidates_of_def)

lemma concat_candidates_rendered:
  "concat (map (candidates_of terms) (filter rendered els)) = concat (map (candidates_of terms) els)"
  by (induction els) (auto simp: candidates_of_unrendered)

lemma scan_rendered: "scan (\<lambda>selector. filter rendered (doc selector)) terms = scan doc terms"
  by (simp add: scan_def concat_candidates_rendered)

text \<open>
  C5. No element whose bounding box has zero width or zero height is returned by
  locate elements: every returned candidate was pushed by an element of non-zero
  width and height, the answer is the one for the document without the elements
  of zero width or height, and such an element pushes nothing, whatever it matches.
\<close>

theorem unrendered_never_returned:
  assumes "page s = Some p" and "evaluate drv p (world s) = (Inr doc, w')"
  shows "\<exists>r s'. findElements drv terms s = (Inr r, s')
           \<and> (\<forall>c\<in>set (res_top r). \<exists>selector\<in>set selectors. \<exists>el\<in>set (doc selector).
                 rect_width el \<noteq> 0 \<and> rect_height el \<noteq> 0 \<and> candidates_of terms el = [c])
           \<and> res_top r = take 6 (scan (\<lambda>selector. filter rendered (doc selector)) terms)
           \<and> (\<forall>selector\<in>set selectors. \<forall>el\<in>set (doc selector).
                 rect_width el = 0 \<or> rect_height el = 0 \<longrightarrow> candidates_of terms el = [])"
proof -
  have "\<exists>selector\<in>set selectors. \<exists>el\<in>set (doc selector).
          rect_width el \<noteq> 0 \<and> rect_height el \<noteq> 0 \<and> candidates_of terms el = [c]"
    if "c \<in> set (take 6 (scan doc terms))" for c
  proof -
    from that have "c \<in> set (scan doc terms)" by (rule in_set_takeD)
    then obtain selector el where "selector \<in> set selectors" "el \<in> set (doc selector)"
      and c: "candidates_of terms el = [c]"
      using scan_origin by blast
    moreover from c have "rect_width el \<noteq> 0 \<and> rect_height el \<noteq> 0"
      using candidates_of_single by fastforce
    ultimately show ?thesis by blast
  qed
  moreover have "candidates_of terms el = []" if "rect_width el = 0 \<or> rect_height el = 0" for el
    using that by (intro candidates_of_unrendered) (auto simp: rendered_def)
  ultimately show ?thesis
    unfolding findElements_open [OF assms] by (simp add: scan_rendered)
qed

lemma scan_hidden:
  "scan (buttons_doc [button_el ''Sign Up'' 0 40, button_el ''Sign Up'' 100 0,
                      button_el ''Sign Up'' 100 40]) [''sign'', ''up''] =
     [\<lparr>cand_text = ''Sign Up'', cand_tag = ''button'', cand_id = None, cand_className = [],
       confidence = 2, center_x = 60, center_y = 40\<rparr>]"
  by code_simp

text \<open>
  A run of C5: of three buttons \<^verbatim>\<open>Sign Up\<close>, the one of width 0 and the one of height 0
  are left out.
\<close>

theorem unrendered_never_returned_witness:
  "findElements (sim_driver (\<lambda>a. True)
       (buttons_doc [button_el ''Sign Up'' 0 40, button_el ''Sign Up'' 100 0,
                     button_el ''Sign Up'' 100 40])) [''sign'', ''up''] open_session
     = (Inr \<lparr>res_count = 1, res_top =
          [\<lparr>cand_text = ''Sign Up'', cand_tag = ''button'', cand_id = None, cand_className = [],
            confidence = 2, center_x = 60, center_y = 40\<rparr>]\<rparr>,
        open_session\<lparr>calls := [Evaluate 2]\<rparr>)
   \<and> candidates_of [''sign'', ''up''] (button_el ''Sign Up'' 0 40) = []
   \<and> candidates_of [''sign'', ''up''] (button_el ''Sign Up'' 100 0) = []"
proof -
  let ?doc = "buttons_doc [button_el ''Sign Up'' 0 40, button_el ''Sign Up'' 100 0,
                           button_el ''Sign Up'' 100 40]"
  have res: "findElements (sim_driver (\<lambda>a. True) ?doc) [''sign'', ''up''] open_session
     = (Inr \<lparr>res_count = 1, res_top =
          [\<lparr>cand_text = ''Sign Up'', cand_tag = ''button'', cand_id = None, cand_className = [],
            confidence = 2, center_x = 60, center_y = 40\<rparr>]\<rparr>,
        open_session\<lparr>calls := [Evaluate 2]\<rparr>)"
    by (simp add: findElements_open [OF sim_page sim_evaluate] scan_hidden)
       (simp add: open_session_def)
  have sel: "''button'' \<in> set selectors"
    by (simp add: selectors_def)
  have els: "button_el ''Sign Up'' 0 40 \<in> set (?doc ''button'')"
    "button_el ''Sign Up'' 100 0 \<in> set (?doc ''button'')"
    by (simp_all add: buttons_doc_def)
  have w0: "rect_width (button_el ''Sign Up'' 0 40) = 0" and h0: "rect_height (button_el ''Sign Up'' 100 0) = 0"
    by (simp_all add: button_el_def)
  from unrendered_never_returned [OF sim_page sim_evaluate, of "\<lambda>a. True" ?doc "[''sign'', ''up'']"]
  have "\<forall>selector\<in>set selectors. \<forall>el\<in>set (?doc selector).
          rect_width el = 0 \<or> rect_height el = 0 \<longrightarrow> candidates_of [''sign'', ''up''] el = []"
    by blast
  with sel els w0 h0 have "candidates_of [''sign'', ''up''] (button_el ''Sign Up'' 0 40) = []"
    "candidates_of [''sign'', ''up''] (button_el ''Sign Up'' 100 0) = []"
    by blast+
  with res show ?thesis by simp
qed

text \<open>
  C6. When the page evaluates the scan, locate elements returns a result, not an
  error; the list has at most 6 entries and the count is its length; when no
  element under the selectors matches any hint term, the result is the count 0
  with the empty list.
\<close>

theorem at_most_six:
  assumes "page s = Some p" and "evaluate drv p (world s) = (Inr doc, w')"
  shows "\<exists>r s'. findElements drv terms s = (Inr r, s')
           \<and> length (res_top r) \<le> 6
           \<and> res_count r = length (res_top r)
           \<and> ((\<forall>selector\<in>set selectors. \<forall>el\<in>set (doc selector). \<forall>t\<in>set terms. \<not> hint_matches el t)
                \<longrightarrow> r = \<lparr>res_count = 0, res_top = []\<rparr>)"
proof -
  have "scan doc terms = []"
    if none: "\<forall>selector\<in>set selectors. \<forall>el\<in>set (doc selector). \<forall>t\<in>set terms. \<not> hint_matches el t"
  proof -
    have "c \<notin> set (scan doc terms)" for c
    proof
      assume "c \<in> set (scan doc terms)"
      then obtain selector el where "selector \<in> set selectors" "el \<in> set (doc selector)"
        and "candidates_of terms el = [c]"
        using scan_origin by blast
      moreover from this have "filter (hint_matches el) terms \<noteq> []"
        using candidates_of_single by blast
      ultimately show False
        using none by (auto simp: filter_empty_conv)
    qed
    then show ?thesis by (cases "scan doc terms") auto
  qed
  then show ?thesis
    unfolding findElements_open [OF assms] by auto
qed

lemma scan_seven:
  "take 6 (scan (buttons_doc [button_el ''b1'' 100 40, button_el ''b2'' 100 40, button_el ''b3'' 100 40,
       button_el ''b4'' 100 40, button_el ''b5'' 100 40, button_el ''b6'' 100 40,
       button_el ''b7'' 100 40]) [''b'']) =
     map (\<lambda>txt. \<lparr>cand_text = txt, cand_tag = ''button'', cand_id = None, cand_className = [],
                 confidence = 1, center_x = 60, center_y = 40\<rparr>)
         [''b1'', ''b2'', ''b3'', ''b4'', ''b5'', ''b6'']"
  by code_simp

lemma scan_none: "scan (buttons_doc [button_el ''Cancel'' 100 40]) [''sign'', ''up''] = []"
  by code_simp

text \<open>
  A run of C6: seven matching buttons give six candidates, and no match gives the
  empty result.
\<close>

theorem at_most_six_witness:
  "res_count (projr (fst (findElements (sim_driver (\<lambda>a. True)
       (buttons_doc [button_el ''b1'' 100 40, button_el ''b2'' 100 40, button_el ''b3'' 100 40,
          button_el ''b4'' 100 40, button_el ''b5'' 100 40, button_el ''b6'' 100 40,
          button_el ''b7'' 100 40])) [''b''] open_session))) = 6
   \<and> findElements (sim_driver (\<lambda>a. True) (buttons_doc [button_el ''Cancel'' 100 40]))
        [''sign'', ''up''] open_session
       = (Inr \<lparr>res_count = 0, res_top = []\<rparr>, open_session\<lparr>calls := [Evaluate 2]\<rparr>)"
proof -
  have none: "\<forall>selector\<in>set selectors. \<forall>el\<in>set (buttons_doc [button_el ''Cancel'' 100 40] selector).
                \<forall>t\<in>set [''sign'', ''up'']. \<not> hint_matches el t"
  proof (intro ballI)
    fix selector el t
    assume "el \<in> set (buttons_doc [button_el ''Cancel'' 100 40] selector)"
      and t: "t \<in> set [''sign'', ''up'']"
    then have el: "el = button_el ''Cancel'' 100 40"
      by (simp add: buttons_doc_def split: if_splits)
    have "\<not> hint_matches (button_el ''Cancel'' 100 40) ''sign''"
      "\<not> hint_matches (button_el ''Cancel'' 100 40) ''up''"
      by code_simp+
    with t el show "\<not> hint_matches el t" by auto
  qed
  from at_most_six [OF sim_page sim_evaluate, of "\<lambda>a. True" "buttons_doc [button_el ''Cancel'' 100 40]"
      "[''sign'', ''up'']"] none
  have "\<exists>s'. findElements (sim_driver (\<lambda>a. True) (buttons_doc [button_el ''Cancel'' 100 40]))
        [''sign'', ''up''] open_session = (Inr \<lparr>res_count = 0, res_top = []\<rparr>, s')"
    by blast
  then have empty: "findElements (sim_driver (\<lambda>a. True) (buttons_doc [button_el ''Cancel'' 100 40]))
        [''sign'', ''up''] open_session
       = (Inr \<lparr>res_count = 0, res_top = []\<rparr>, open_session\<lparr>calls := [Evaluate 2]\<rparr>)"
    by (auto simp: findElements_open [OF sim_page sim_evaluate]) (simp add: open_session_def)
  have "res_count (projr (fst (findElements (sim_driver (\<lambda>a. True)
       (buttons_doc [button_el ''b1'' 100 40, button_el ''b2'' 100 40, button_el ''b3'' 100 40,
          button_el ''b4'' 100 40, button_el ''b5'' 100 40, button_el ''b6'' 100 40,
          button_el ''b7'' 100 40])) [''b''] open_session))) = 6"
    by (simp add: findElements_open [OF sim_page sim_evaluate] scan_seven)
  with empty show ?thesis by simp
qed

section \<open>Strategy chains: filling one field, clicking\<close>

lemma run_attempts_True:
  "run_attempts as s = (True, s') \<longleftrightarrow>
     (\<exists>n<length as. \<exists>s1. all_fail (take n as) s = Some s1 \<and> (as ! n) s1 = (Inr (), s'))"
proof (induction as arbitrary: s)
  case Nil
  show ?case by simp
next
  case (Cons a as)
  obtain e s1 where a: "a s = (e, s1)" by (cases "a s")
  show ?case
  proof (cases e)
    case (Inl m)
    have "(\<exists>n<length (a # as). \<exists>s2. all_fail (take n (a # as)) s = Some s2 \<and> ((a # as) ! n) s2 = (Inr (), s'))
      \<longleftrightarrow> (\<exists>k<length as. \<exists>s2. all_fail (take k as) s1 = Some s2 \<and> (as ! k) s2 = (Inr (), s'))"
      (is "?L \<longleftrightarrow> ?R")
    proof
      assume ?L
      then obtain n s2 where n: "n < length (a # as)"
        and f: "all_fail (take n (a # as)) s = Some s2" and ok: "((a # as) ! n) s2 = (Inr (), s')"
        by blast
      show ?R
      proof (cases n)
        case 0
        with f ok a Inl show ?thesis by simp
      next
        case (Suc k)
        with n f ok a Inl show ?thesis by auto
      qed
    next
      assume ?R
      then obtain k s2 where "k < length as" "all_fail (take k as) s1 = Some s2"
        "(as ! k) s2 = (Inr (), s')" by blast
      with a Inl have "Suc k < length (a # as) \<and> all_fail (take (Suc k) (a # as)) s = Some s2
        \<and> ((a # as) ! Suc k) s2 = (Inr (), s')" by simp
      then show ?L by blast
    qed
    with a Inl Cons.IH [of s1] show ?thesis by simp
  next
    case (Inr u)
    have "(\<exists>n<length (a # as). \<exists>s2. all_fail (take n (a # as)) s = Some s2 \<and> ((a # as) ! n) s2 = (Inr (), s'))
      \<longleftrightarrow> s1 = s'" (is "?L \<longleftrightarrow> _")
    proof
      assume ?L
      then obtain n s2 where n: "n < length (a # as)"
        and f: "all_fail (take n (a # as)) s = Some s2" and ok: "((a # as) ! n) s2 = (Inr (), s')"
        by blast
      show "s1 = s'"
      proof (cases n)
        case 0
        with f ok a Inr show ?thesis by simp
      next
        case (Suc k)
        with f a Inr show ?thesis by simp
      qed
    next
      assume "s1 = s'"
      with a Inr have "0 < length (a # as) \<and> all_fail (take 0 (a # as)) s = Some s
        \<and> ((a # as) ! 0) s = (Inr (), s')" by simp
      then show ?L by blast
    qed
    with a Inr show ?thesis by simp
  qed
qed

lemma run_attempts_False:
  "run_attempts as s = (False, s') \<longleftrightarrow> all_fail as s = Some s'"
proof (induction as arbitrary: s)
  case Nil
  show ?case by auto
next
  case (Cons a as)
  obtain e s1 where a: "a s = (e, s1)" by (cases "a s")
  with Cons.IH [of s1] show ?case by (cases e) simp_all
qed




lemma length_fill_strategies [simp]: "length (fill_strategies drv p lbl v) = 5"
  by (simp add: fill_strategies_def)





lemmas sim_run =
  fill_by_label_def fill_by_placeholder_def fill_by_name_def fill_by_id_def
  fill_by_label_element_def page_fill_def page_act_def perform_def sim_driver_def open_session_def
  click_then_settle_def





lemma try_clicks_run:
  \<open>try_clicks drv p t (map (page_act drv p) acts) s =
     (case run_attempts (map (click_then_settle drv p) acts) s of
        (True, s') \<Rightarrow> (Inr (''Clicked "'' @ t @ ''"''), s')
      | (False, s') \<Rightarrow> (Inl (''Could not click "'' @ t @ ''"''), s'))\<close>
proof (induction acts arbitrary: s)
  case Nil
  show ?case by simp
next
  case (Cons a acts)
  obtain e s1 where a: "page_act drv p a s = (e, s1)" by (cases "page_act drv p a s")
  show ?case
  proof (cases e)
    case (Inl m)
    with a Cons.IH [of s1] show ?thesis by (simp add: click_then_settle_def)
  next
    case (Inr u)
    obtain e2 s2 where w: "page_act drv p (WaitForTimeout 600) s1 = (e2, s2)"
      by (cases "page_act drv p (WaitForTimeout 600) s1")
    with a Inr Cons.IH [of s2] show ?thesis by (cases e2) (simp_all add: click_then_settle_def)
  qed
qed

lemma click_attempts_map: "click_attempts drv p t = map (page_act drv p) (click_actions t)"
  by (simp add: click_attempts_def click_actions_def)

lemma length_click_actions [simp]: "length (click_actions t) = 5"
  by (simp add: click_actions_def)

lemma clickElement_text:
  assumes "page s = Some p" and "t \<noteq> []"
  shows \<open>clickElement drv (Some t) x y s =
     (case run_attempts (map (click_then_settle drv p) (click_actions t)) s of
        (True, s') \<Rightarrow> (Inr (''Clicked "'' @ t @ ''"''), s')
      | (False, s') \<Rightarrow> (Inl (''Failed to click: Could not click "'' @ t @ ''"''), s'))\<close>
proof -
  obtain ok s' where r: "run_attempts (map (click_then_settle drv p) (click_actions t)) s = (ok, s')"
    by (cases "run_attempts (map (click_then_settle drv p) (click_actions t)) s")
  with assms show ?thesis
    unfolding clickElement_def click_attempts_map try_clicks_run
    by (cases ok) (simp_all add: rethrow_def)
qed

lemma click_then_settle_Inr:
  "click_then_settle drv p a s = (Inr (), s') \<longleftrightarrow>
     (\<exists>s1. page_act drv p a s = (Inr (), s1) \<and> page_act drv p (WaitForTimeout 600) s1 = (Inr (), s'))"
  by (auto simp: click_then_settle_def split: prod.splits sum.splits)

lemma click_then_settle_Inl:
  "(\<exists>m. click_then_settle drv p a s = (Inl m, s')) \<longleftrightarrow>
     (\<exists>m. page_act drv p a s = (Inl m, s'))
     \<or> (\<exists>s1 m. page_act drv p a s = (Inr (), s1) \<and> page_act drv p (WaitForTimeout 600) s1 = (Inl m, s'))"
  by (auto simp: click_then_settle_def split: prod.splits sum.splits)

lemma all_fail_clicks:
  "all_fail (map (page_act drv p) acts) s = Some s'
     \<Longrightarrow> all_fail (map (click_then_settle drv p) acts) s = Some s'"
proof (induction acts arbitrary: s)
  case Nil
  then show ?case by simp
next
  case (Cons a acts)
  obtain e s1 where a: "page_act drv p a s = (e, s1)" by (cases "page_act drv p a s")
  with Cons show ?case by (cases e) (simp_all add: click_then_settle_def)
qed

text \<open>
  C7 (as amended). With a non-empty text hint on an open session, the five
  resolution strategies (role button, role link, visible text, text selector,
  has-text selector) are tried in this order. A strategy counts as failed when its
  click throws, and also when its click succeeds and the settle delay of 600 ms
  after it throws; either failure is swallowed and the next strategy is tried. The
  action succeeds exactly when a click and its settle delay succeed after all the
  strategies before it failed in that sense, and fails, with an error naming the
  text, exactly when all five failed in that sense; in particular it fails when
  all five clicks throw.
\<close>

theorem click_strategy_chain:
  assumes "page s = Some p" and "t \<noteq> []"
  shows \<open>(clickElement drv (Some t) x y s = (r, s') \<longleftrightarrow>
      (r = Inr (''Clicked "'' @ t @ ''"'')
       \<and> (\<exists>n<5. \<exists>s1 s2.
             all_fail (map (click_then_settle drv p) (take n (click_actions t))) s = Some s1
             \<and> page_act drv p (click_actions t ! n) s1 = (Inr (), s2)
             \<and> page_act drv p (WaitForTimeout 600) s2 = (Inr (), s')))
      \<or> (r = Inl (''Failed to click: Could not click "'' @ t @ ''"'')
         \<and> all_fail (map (click_then_settle drv p) (click_actions t)) s = Some s'))
    \<and> (all_fail (map (page_act drv p) (click_actions t)) s = Some s' \<longrightarrow>
         clickElement drv (Some t) x y s = (Inl (''Failed to click: Could not click "'' @ t @ ''"''), s'))
    \<and> click_actions t =
         [Click (GetByRole ''button'' t) 2000, Click (GetByRole ''link'' t) 2000,
          Click (GetByText t) 2000, PageClick (''text="'' @ t @ ''"'') 2000,
          PageClick ('':has-text("'' @ t @ ''")'') 2000]
    \<and> (\<forall>a s0 s1. (\<exists>m. click_then_settle drv p a s0 = (Inl m, s1)) \<longleftrightarrow>
          (\<exists>m. page_act drv p a s0 = (Inl m, s1))
          \<or> (\<exists>s2 m. page_act drv p a s0 = (Inr (), s2)
                \<and> page_act drv p (WaitForTimeout 600) s2 = (Inl m, s1)))\<close>
proof (intro conjI allI)
  let ?A = "map (click_then_settle drv p) (click_actions t)"
  obtain ok s2 where run: "run_attempts ?A s = (ok, s2)"
    by (cases "run_attempts ?A s")
  have T: "(ok \<and> s2 = s') \<longleftrightarrow> (\<exists>n<5. \<exists>s1 s3.
             all_fail (map (click_then_settle drv p) (take n (click_actions t))) s = Some s1
             \<and> page_act drv p (click_actions t ! n) s1 = (Inr (), s3)
             \<and> page_act drv p (WaitForTimeout 600) s3 = (Inr (), s'))"
  proof -
    have "(ok \<and> s2 = s') \<longleftrightarrow> (\<exists>n<length ?A. \<exists>s1. all_fail (take n ?A) s = Some s1 \<and> (?A ! n) s1 = (Inr (), s'))"
      using run_attempts_True [of ?A s s'] run by auto
    also have "\<dots> \<longleftrightarrow> (\<exists>n<5. \<exists>s1. all_fail (map (click_then_settle drv p) (take n (click_actions t))) s = Some s1
        \<and> click_then_settle drv p (click_actions t ! n) s1 = (Inr (), s'))"
      by (auto simp: take_map)
    finally show ?thesis
      by (simp add: click_then_settle_Inr)
  qed
  have F: "(\<not> ok \<and> s2 = s') \<longleftrightarrow> all_fail ?A s = Some s'"
    using run_attempts_False [of ?A s s'] run by auto
  show \<open>clickElement drv (Some t) x y s = (r, s') \<longleftrightarrow>
      (r = Inr (''Clicked "'' @ t @ ''"'')
       \<and> (\<exists>n<5. \<exists>s1 s2.
             all_fail (map (click_then_settle drv p) (take n (click_actions t))) s = Some s1
             \<and> page_act drv p (click_actions t ! n) s1 = (Inr (), s2)
             \<and> page_act drv p (WaitForTimeout 600) s2 = (Inr (), s')))
      \<or> (r = Inl (''Failed to click: Could not click "'' @ t @ ''"'')
         \<and> all_fail (map (click_then_settle drv p) (click_actions t)) s = Some s')\<close>
    unfolding clickElement_text [OF assms] run
    using T F by (cases ok) auto
next
  show \<open>all_fail (map (page_act drv p) (click_actions t)) s = Some s' \<longrightarrow>
         clickElement drv (Some t) x y s = (Inl (''Failed to click: Could not click "'' @ t @ ''"''), s')\<close>
  proof
    assume "all_fail (map (page_act drv p) (click_actions t)) s = Some s'"
    then have "all_fail (map (click_then_settle drv p) (click_actions t)) s = Some s'"
      by (rule all_fail_clicks)
    then have "run_attempts (map (click_then_settle drv p) (click_actions t)) s = (False, s')"
      by (simp add: run_attempts_False)
    then show \<open>clickElement drv (Some t) x y s = (Inl (''Failed to click: Could not click "'' @ t @ ''"''), s')\<close>
      by (simp add: clickElement_text [OF assms])
  qed
next
  show \<open>click_actions t =
         [Click (GetByRole ''button'' t) 2000, Click (GetByRole ''link'' t) 2000,
          Click (GetByText t) 2000, PageClick (''text="'' @ t @ ''"'') 2000,
          PageClick ('':has-text("'' @ t @ ''")'') 2000]\<close>
    by (simp add: click_actions_def)
next
  fix a s0 s1
  show "(\<exists>m. click_then_settle drv p a s0 = (Inl m, s1)) \<longleftrightarrow>
          (\<exists>m. page_act drv p a s0 = (Inl m, s1))
          \<or> (\<exists>s2 m. page_act drv p a s0 = (Inr (), s2)
                \<and> page_act drv p (WaitForTimeout 600) s2 = (Inl m, s1))"
    by (rule click_then_settle_Inl)
qed

text \<open>
  Two runs of C7: a page where no click succeeds, with the five calls in order, and
  a page where the third strategy succeeds.
\<close>

theorem click_strategy_chain_witness:
  \<open>clickElement (sim_driver (\<lambda>a. False) (\<lambda>sel. [])) (Some ''Sign Up'') None None open_session
     = (Inl ''Failed to click: Could not click "Sign Up"'',
        open_session\<lparr>calls :=
          [Act 2 (Click (GetByRole ''button'' ''Sign Up'') 2000),
           Act 2 (Click (GetByRole ''link'' ''Sign Up'') 2000),
           Act 2 (Click (GetByText ''Sign Up'') 2000),
           Act 2 (PageClick ''text="Sign Up"'' 2000),
           Act 2 (PageClick '':has-text("Sign Up")'' 2000)]\<rparr>)
   \<and> clickElement (sim_driver (\<lambda>a. a = Click (GetByText ''Sign Up'') 2000 \<or> is_wait a) (\<lambda>sel. []))
        (Some ''Sign Up'') None None open_session
     = (Inr ''Clicked "Sign Up"'',
        open_session\<lparr>calls :=
          [Act 2 (Click (GetByRole ''button'' ''Sign Up'') 2000),
           Act 2 (Click (GetByRole ''link'' ''Sign Up'') 2000),
           Act 2 (Click (GetByText ''Sign Up'') 2000),
           Act 2 (WaitForTimeout 600)]\<rparr>)\<close>
proof -
  have page: "page open_session = Some 2" and hint: "''Sign Up'' \<noteq> []"
    by (simp_all add: open_session_def)
  let ?never = "sim_driver (\<lambda>a. False) (\<lambda>sel. [])"
  let ?third = "sim_driver (\<lambda>a. a = Click (GetByText ''Sign Up'') 2000 \<or> is_wait a) (\<lambda>sel. [])"
  let ?s5 = \<open>open_session\<lparr>calls :=
          [Act 2 (Click (GetByRole ''button'' ''Sign Up'') 2000),
           Act 2 (Click (GetByRole ''link'' ''Sign Up'') 2000),
           Act 2 (Click (GetByText ''Sign Up'') 2000),
           Act 2 (PageClick ''text="Sign Up"'' 2000),
           Act 2 (PageClick '':has-text("Sign Up")'' 2000)]\<rparr>\<close>
  let ?s2 = \<open>open_session\<lparr>calls :=
          [Act 2 (Click (GetByRole ''button'' ''Sign Up'') 2000),
           Act 2 (Click (GetByRole ''link'' ''Sign Up'') 2000)]\<rparr>\<close>
  let ?s3 = \<open>open_session\<lparr>calls :=
          [Act 2 (Click (GetByRole ''button'' ''Sign Up'') 2000),
           Act 2 (Click (GetByRole ''link'' ''Sign Up'') 2000),
           Act 2 (Click (GetByText ''Sign Up'') 2000)]\<rparr>\<close>
  let ?s4 = \<open>open_session\<lparr>calls :=
          [Act 2 (Click (GetByRole ''button'' ''Sign Up'') 2000),
           Act 2 (Click (GetByRole ''link'' ''Sign Up'') 2000),
           Act 2 (Click (GetByText ''Sign Up'') 2000),
           Act 2 (WaitForTimeout 600)]\<rparr>\<close>
  have "all_fail (map (page_act ?never 2) (click_actions ''Sign Up'')) open_session = Some ?s5"
    by (simp add: click_actions_def sim_run)
  with click_strategy_chain [OF page hint, of ?never None None
      \<open>Inl ''Failed to click: Could not click "Sign Up"''\<close> ?s5]
  have none: \<open>clickElement ?never (Some ''Sign Up'') None None open_session
     = (Inl ''Failed to click: Could not click "Sign Up"'', ?s5)\<close>
    by simp
  have "all_fail (map (click_then_settle ?third 2) (take 2 (click_actions ''Sign Up''))) open_session = Some ?s2"
    and "page_act ?third 2 (click_actions ''Sign Up'' ! 2) ?s2 = (Inr (), ?s3)"
    and "page_act ?third 2 (WaitForTimeout 600) ?s3 = (Inr (), ?s4)"
    by (simp_all add: click_actions_def sim_run is_wait_def)
  then have "\<exists>n<5. \<exists>s1 s2.
      all_fail (map (click_then_settle ?third 2) (take n (click_actions ''Sign Up''))) open_session = Some s1
      \<and> page_act ?third 2 (click_actions ''Sign Up'' ! n) s1 = (Inr (), s2)
      \<and> page_act ?third 2 (WaitForTimeout 600) s2 = (Inr (), ?s4)"
    by (intro exI [of _ 2] exI [of _ ?s2] exI [of _ ?s3]) simp
  with click_strategy_chain [OF page hint, of ?third None None \<open>Inr ''Clicked "Sign Up"''\<close> ?s4]
  have \<open>clickElement ?third (Some ''Sign Up'') None None open_session
     = (Inr ''Clicked "Sign Up"'', ?s4)\<close>
    by simp
  with none show ?thesis by simp
qed

text \<open>
  C7 as stated fails when the settle delay throws: on a page where every one of
  the five clicks succeeds and every \<^verbatim>\<open>waitForTimeout\<close> throws, the element is clicked
  five times and the action still fails with \<^verbatim>\<open>Could not click\<close>.
\<close>

theorem clicked_yet_failed_counterexample:
  \<open>clickElement (sim_driver (\<lambda>a. \<not> is_wait a) (\<lambda>sel. [])) (Some ''Sign Up'') None None open_session
     = (Inl ''Failed to click: Could not click "Sign Up"'',
        open_session\<lparr>calls :=
          [Act 2 (Click (GetByRole ''button'' ''Sign Up'') 2000), Act 2 (WaitForTimeout 600),
           Act 2 (Click (GetByRole ''link'' ''Sign Up'') 2000), Act 2 (WaitForTimeout 600),
           Act 2 (Click (GetByText ''Sign Up'') 2000), Act 2 (WaitForTimeout 600),
           Act 2 (PageClick ''text="Sign Up"'' 2000), Act 2 (WaitForTimeout 600),
           Act 2 (PageClick '':has-text("Sign Up")'' 2000), Act 2 (WaitForTimeout 600)]\<rparr>)
   \<and> fst (act (sim_driver (\<lambda>a. \<not> is_wait a) (\<lambda>sel. [])) 2
             (Click (GetByRole ''button'' ''Sign Up'') 2000) ()) = Inr ()\<close>
  by (simp add: clickElement_def click_attempts_def rethrow_def sim_run is_wait_def)

text \<open>
  C10. The empty text hint is treated as no text hint: the outcome is the one for a
  null text. With a coordinate missing the call fails with
  \<^verbatim>\<open>Provide text or coordinates\<close> and the session is untouched; with both coordinates
  present, zero included, the first call is the mouse click at the point.
\<close>

theorem empty_text_is_no_text:
  "clickElement drv (Some []) x y s = clickElement drv None x y s
   \<and> (page s = Some p \<longrightarrow> x = None \<or> y = None \<longrightarrow>
        clickElement drv (Some []) x y s = (Inl ''Failed to click: Provide text or coordinates'', s))
   \<and> (page s = Some p \<longrightarrow>
        clickElement drv (Some []) (Some xv) (Some yv) s =
          (case page_act drv p (MouseClick xv yv) s of
             (Inl m, s1) \<Rightarrow> (Inl (''Failed to click: '' @ m), s1)
           | (Inr _, s1) \<Rightarrow>
               (case page_act drv p (WaitForTimeout 600) s1 of
                  (Inl m, s2) \<Rightarrow> (Inl (''Failed to click: '' @ m), s2)
                | (Inr _, s2) \<Rightarrow>
                    (Inr (''Clicked at ('' @ show_int xv @ '', '' @ show_int yv @ '')''), s2))))"
proof (intro conjI impI)
  show "clickElement drv (Some []) x y s = clickElement drv None x y s"
    by (cases "page s") (simp_all add: clickElement_def)
next
  assume "page s = Some p" and "x = None \<or> y = None"
  then show "clickElement drv (Some []) x y s = (Inl ''Failed to click: Provide text or coordinates'', s)"
    by (auto simp: clickElement_def click_coordinates_def rethrow_def split: option.splits)
next
  assume "page s = Some p"
  then show "clickElement drv (Some []) (Some xv) (Some yv) s =
          (case page_act drv p (MouseClick xv yv) s of
             (Inl m, s1) \<Rightarrow> (Inl (''Failed to click: '' @ m), s1)
           | (Inr _, s1) \<Rightarrow>
               (case page_act drv p (WaitForTimeout 600) s1 of
                  (Inl m, s2) \<Rightarrow> (Inl (''Failed to click: '' @ m), s2)
                | (Inr _, s2) \<Rightarrow>
                    (Inr (''Clicked at ('' @ show_int xv @ '', '' @ show_int yv @ '')''), s2)))"
    by (simp add: clickElement_def click_coordinates_def rethrow_def split: prod.splits sum.splits)
qed

text \<open>
  A run of C10: the empty text with the point (0, 0) clicks the point; with a
  coordinate missing it fails as the null text does.
\<close>

theorem empty_text_is_no_text_witness:
  "page open_session = Some 2
   \<and> clickElement (sim_driver (\<lambda>a. True) (\<lambda>sel. [])) (Some []) (Some 0) (Some 0) open_session
       = (Inr ''Clicked at (0, 0)'',
          open_session\<lparr>calls := [Act 2 (MouseClick 0 0), Act 2 (WaitForTimeout 600)]\<rparr>)
   \<and> clickElement (sim_driver (\<lambda>a. True) (\<lambda>sel. [])) (Some []) None (Some 0) open_session
       = (Inl ''Failed to click: Provide text or coordinates'', open_session)
   \<and> clickElement (sim_driver (\<lambda>a. True) (\<lambda>sel. [])) None None (Some 0) open_session
       = (Inl ''Failed to click: Provide text or coordinates'', open_session)"
proof -
  have page: "page open_session = Some 2"
    by (simp add: open_session_def)
  let ?drv = "sim_driver (\<lambda>a. True) (\<lambda>sel. [])"
  have click: "page_act ?drv 2 (MouseClick 0 0) open_session
      = (Inr (), open_session\<lparr>calls := [Act 2 (MouseClick 0 0)]\<rparr>)"
    and wait: "page_act ?drv 2 (WaitForTimeout 600) (open_session\<lparr>calls := [Act 2 (MouseClick 0 0)]\<rparr>)
      = (Inr (), open_session\<lparr>calls := [Act 2 (MouseClick 0 0), Act 2 (WaitForTimeout 600)]\<rparr>)"
    by (simp_all add: sim_run)
  from empty_text_is_no_text [of ?drv None "Some 0" open_session 2 0 0]
  have same: "clickElement ?drv (Some []) None (Some 0) open_session
      = clickElement ?drv None None (Some 0) open_session"
    and fails: "clickElement ?drv (Some []) None (Some 0) open_session
      = (Inl ''Failed to click: Provide text or coordinates'', open_session)"
    and clicks: "clickElement ?drv (Some []) (Some 0) (Some 0) open_session
      = (Inr ''Clicked at (0, 0)'',
         open_session\<lparr>calls := [Act 2 (MouseClick 0 0), Act 2 (WaitForTimeout 600)]\<rparr>)"
    using page by (auto simp: click wait show_int_def)
  from same fails have "clickElement ?drv None None (Some 0) open_session
      = (Inl ''Failed to click: Provide text or coordinates'', open_session)"
    by simp
  with page fails clicks show ?thesis by simp
qed

section \<open>The form filler\<close>















end
